theory Spec2Isabelle
  imports Main "HOL-Library.Finite_Map"
begin

section \<open>Python string primitives used by interfaces\_file.py\<close>

text \<open>
  The module is Python 2 code (\<^verbatim>\<open>cmp\<close>, \<^verbatim>\<open>filter\<close> returning a list), so a
  \<^verbatim>\<open>str\<close> is a byte string: \<^typ>\<open>string\<close>. \<^verbatim>\<open>str.split()\<close> with no argument
  splits on runs of the six ASCII whitespace bytes and never yields an empty word.
\<close>

definition isspace :: "char \<Rightarrow> bool" where
  "isspace c \<longleftrightarrow> c \<in> set [CHR '' '', CHR 0x09, CHR 0x0A, CHR 0x0B, CHR 0x0C, CHR 0x0D]"

text \<open>\<^verbatim>\<open>s.split()\<close>: the first argument is the word read so far.\<close>

fun split_acc :: "string \<Rightarrow> string \<Rightarrow> string list" where
  "split_acc w [] = (if w = [] then [] else [w])"
| "split_acc w (c # cs) =
     (if isspace c then (if w = [] then split_acc [] cs else w # split_acc [] cs)
      else split_acc (w @ [c]) cs)"

definition split_str :: "string \<Rightarrow> string list" where
  "split_str s = split_acc [] s"

text \<open>\<^verbatim>\<open>sep.join(ws)\<close>.\<close>

fun join_str :: "string \<Rightarrow> string list \<Rightarrow> string" where
  "join_str sep [] = []"
| "join_str sep [w] = w"
| "join_str sep (w # v # ws) = w @ sep @ join_str sep (v # ws)"

text \<open>
  \<^verbatim>\<open>s.find(sub, start)\<close>: the lowest index at or after \<open>start\<close> where \<open>sub\<close> occurs,
  or \<open>-1\<close>. A negative \<open>start\<close> counts from the end and is clipped at 0; a \<open>start\<close>
  beyond the end finds nothing, not even the empty string. \<open>find_at sub s i\<close> searches
  the rest \<open>s\<close> of the string, which begins at index \<open>i\<close>.
\<close>

fun find_at :: "string \<Rightarrow> string \<Rightarrow> nat \<Rightarrow> int" where
  "find_at sub [] i = (if sub = [] then int i else - 1)"
| "find_at sub (c # cs) i =
     (if take (length sub) (c # cs) = sub then int i else find_at sub cs (Suc i))"

definition find_str :: "string \<Rightarrow> string \<Rightarrow> int \<Rightarrow> int" where
  "find_str s sub start =
     (let n = int (length s);
          st = (if start < 0 then max 0 (start + n) else start)
      in if st > n then - 1 else find_at sub (drop (nat st) s) (nat st))"

text \<open>
  Slices \<^verbatim>\<open>s[lo:hi]\<close>, \<^verbatim>\<open>s[:hi]\<close> and \<^verbatim>\<open>s[lo:]\<close>: a negative bound counts from the end,
  and every bound is clipped to the string.
\<close>

definition adj :: "nat \<Rightarrow> int \<Rightarrow> nat" where
  "adj n i = (if i < 0 then nat (max 0 (i + int n)) else min (nat i) n)"

definition slice :: "string \<Rightarrow> int \<Rightarrow> int \<Rightarrow> string" where
  "slice s lo hi = take (adj (length s) hi - adj (length s) lo) (drop (adj (length s) lo) s)"

definition slice_to :: "string \<Rightarrow> int \<Rightarrow> string" where
  "slice_to s hi = take (adj (length s) hi) s"

definition slice_from :: "string \<Rightarrow> int \<Rightarrow> string" where
  "slice_from s lo = drop (adj (length s) lo) s"

text \<open>
  \<^verbatim>\<open>s.replace(old, new)\<close>: every non-overlapping occurrence, from the left; an empty
  \<open>old\<close> matches before every byte and at the end.
\<close>

function replace_str :: "string \<Rightarrow> string \<Rightarrow> string \<Rightarrow> string" where
  "replace_str [] old new = (if old = [] then new else [])"
| "replace_str (c # cs) old new =
     (if old = [] then new @ c # replace_str cs old new
      else if take (length old) (c # cs) = old
           then new @ replace_str (drop (length old) (c # cs)) old new
      else c # replace_str cs old new)"
  by pat_completeness auto
termination
  by (relation "measure (\<lambda>(s, old, new). length s)") auto

text \<open>\<^verbatim>\<open>xs.index(x)\<close>: the first position holding a value equal to \<open>x\<close>.\<close>

fun index_of :: "'a list \<Rightarrow> 'a \<Rightarrow> nat option" where
  "index_of [] x = None"
| "index_of (y # ys) x = (if y = x then Some 0 else map_option Suc (index_of ys x))"

text \<open>\<^verbatim>\<open>xs.insert(i, x)\<close> for an index that is not negative: an index past the end appends.\<close>

definition insert_at :: "nat \<Rightarrow> 'a \<Rightarrow> 'a list \<Rightarrow> 'a list" where
  "insert_at i x xs = take i xs @ x # drop i xs"

section \<open>The data model\<close>

text \<open>
  A Python \<^verbatim>\<open>dict\<close> with string keys and values is a finite map; two dicts are equal
  when they hold the same keys with the same values, which is equality of finite maps.
\<close>

type_synonym dict = "(string, string) fmap"

text \<open>
  The three shapes of line dictionary the module builds: \<^verbatim>\<open>lineDict\<close> (keys \<^verbatim>\<open>line\<close>,
  \<^verbatim>\<open>line_type\<close>), the dictionary of an \<^verbatim>\<open>iface\<close> line (keys \<^verbatim>\<open>line\<close>, \<^verbatim>\<open>iface\<close>,
  \<^verbatim>\<open>line_type\<close>, \<^verbatim>\<open>params\<close>) and \<^verbatim>\<open>optionDict\<close> (keys \<^verbatim>\<open>line\<close>, \<^verbatim>\<open>iface\<close>, \<^verbatim>\<open>option\<close>,
  \<^verbatim>\<open>value\<close>, \<^verbatim>\<open>line_type\<close>). Dictionaries of different shapes have different keys and are
  never equal, as values of different constructors.
\<close>

datatype line_rec =
    Unknown_line string
  | Iface_line string string dict
  | Option_line string string string string

fun line :: "line_rec \<Rightarrow> string" where
  "line (Unknown_line l) = l"
| "line (Iface_line l n p) = l"
| "line (Option_line l n k v) = l"

fun line_type :: "line_rec \<Rightarrow> string" where
  "line_type (Unknown_line l) = ''unknown''"
| "line_type (Iface_line l n p) = ''iface''"
| "line_type (Option_line l n k v) = ''option''"

text \<open>\<^verbatim>\<open>"iface" in item and item["iface"] == iface\<close>.\<close>

fun has_iface :: "line_rec \<Rightarrow> string \<Rightarrow> bool" where
  "has_iface (Unknown_line l) iface = False"
| "has_iface (Iface_line l n p) iface = (n = iface)"
| "has_iface (Option_line l n k v) iface = (n = iface)"

text \<open>\<^verbatim>\<open>i['option'] == option\<close>, asked of an option dictionary.\<close>

fun has_option :: "line_rec \<Rightarrow> string \<Rightarrow> bool" where
  "has_option (Option_line l n k v) option = (k = option)"
| "has_option _ option = False"

fun value_of :: "line_rec \<Rightarrow> string" where
  "value_of (Option_line l n k v) = v"
| "value_of _ = []"

definition lineDict :: "string \<Rightarrow> line_rec" where
  "lineDict l = Unknown_line l"

definition optionDict :: "string \<Rightarrow> string \<Rightarrow> string \<Rightarrow> string \<Rightarrow> line_rec" where
  "optionDict l iface option v = Option_line l iface option v"

text \<open>
  \<^verbatim>\<open>module.fail_json\<close> ends the run with the message it is given, so each call is an
  error value carrying the arguments of its message; the Python exceptions the code can
  raise are error values too.
\<close>

datatype error =
    MalformedIfaceLine nat nat
  | MisplacedOption string nat
  | InterfaceNotFound string
  | UnsupportedState string
  | ValueError
  | IndexError
  | KeyError

section \<open>The parser: read\_interfaces\_lines\<close>

datatype mode = Undefined | MAPPING | NONE | IFACE

text \<open>
  The loop's variables. The dictionary \<^verbatim>\<open>currif\<close> is one Python object that is also
  stored in \<^verbatim>\<open>ifaces[iface_name]\<close> and as \<^verbatim>\<open>params\<close> of the \<^verbatim>\<open>iface\<close> line's
  dictionary, so an assignment \<^verbatim>\<open>currif[option_name] = value\<close> shows in all three places:
  \<open>currif_key\<close> and \<open>currif_idx\<close> record where the other two are.
\<close>

record pstate =
  lines :: "line_rec list"
  ifaces :: "(string, dict) fmap"
  currif :: dict
  currif_key :: string
  currif_idx :: nat
  currently_processing :: mode

definition init_state :: pstate where
  "init_state = \<lparr>lines = [], ifaces = fmempty, currif = fmempty, currif_key = [],
     currif_idx = 0, currently_processing = Undefined\<rparr>"

definition append_line :: "line_rec \<Rightarrow> pstate \<Rightarrow> pstate" where
  "append_line r st = st\<lparr>lines := lines st @ [r]\<rparr>"

fun with_params :: "dict \<Rightarrow> line_rec \<Rightarrow> line_rec" where
  "with_params d (Iface_line l n p) = Iface_line l n d"
| "with_params d r = r"

fun map_at :: "nat \<Rightarrow> ('a \<Rightarrow> 'a) \<Rightarrow> 'a list \<Rightarrow> 'a list" where
  "map_at i f [] = []"
| "map_at 0 f (x # xs) = f x # xs"
| "map_at (Suc i) f (x # xs) = x # map_at i f xs"

text \<open>\<^verbatim>\<open>currif[k] = v\<close>, seen through every reference to the object.\<close>

definition currif_set :: "string \<Rightarrow> string \<Rightarrow> pstate \<Rightarrow> pstate" where
  "currif_set k v st =
     (let d = fmupd k v (currif st)
      in st\<lparr>currif := d,
            ifaces := fmupd (currif_key st) d (ifaces st),
            lines := map_at (currif_idx st) (with_params d) (lines st)\<rparr>)"

text \<open>\<^verbatim>\<open>lines.append(lineDict(line))\<close> followed by the assignment of the mode.\<close>

definition unknown_line :: "string \<Rightarrow> mode \<Rightarrow> pstate \<Rightarrow> pstate" where
  "unknown_line l m st = (append_line (lineDict l) st)\<lparr>currently_processing := m\<rparr>"

text \<open>
  The body of the loop for line number \<open>i\<close> (counted from 1). A word is never empty, so
  \<^verbatim>\<open>words[0][0] == "#"\<close> asks whether the first word begins with \<open>#\<close>. In the \<^verbatim>\<open>iface\<close> branch the
  source unpacks \<^verbatim>\<open>words[1:4]\<close> into three names before it tests \<^verbatim>\<open>len(words) != 4\<close>;
  the unpacking raises ValueError when the slice has fewer than three words.
\<close>

definition process_line :: "pstate \<Rightarrow> nat \<Rightarrow> string \<Rightarrow> error + pstate" where
  "process_line st i l =
     (case split_str l of
        [] \<Rightarrow> Inr (append_line (lineDict l) st)
      | w # ws \<Rightarrow>
          if take 1 w = ''#'' then Inr (append_line (lineDict l) st)
          else if w = ''mapping'' then Inr (unknown_line l MAPPING st)
          else if w = ''source'' then Inr (unknown_line l NONE st)
          else if w = ''source-dir'' then Inr (unknown_line l NONE st)
          else if w = ''iface'' then
            (case take 3 ws of
               [iface_name, address_family_name, method_name] \<Rightarrow>
                 if length (w # ws) \<noteq> 4 then Inl (MalformedIfaceLine (length (w # ws)) i)
                 else
                   let d = fmupd ''method'' method_name
                             (fmupd ''address_family'' address_family_name
                               (fmupd ''name'' iface_name fmempty))
                   in Inr (st\<lparr>lines := lines st @ [Iface_line l iface_name d],
                              ifaces := fmupd iface_name d (ifaces st),
                              currif := d,
                              currif_key := iface_name,
                              currif_idx := length (lines st),
                              currently_processing := IFACE\<rparr>)
             | _ \<Rightarrow> Inl ValueError)
          else if w = ''auto'' then Inr (unknown_line l NONE st)
          else if w = ''allow-'' then Inr (unknown_line l NONE st)
          else if w = ''no-auto-down'' then Inr (unknown_line l NONE st)
          else if w = ''no-scripts'' then Inr (unknown_line l NONE st)
          else
            (case currently_processing st of
               IFACE \<Rightarrow>
                 (case fmlookup (currif st) ''name'' of
                    None \<Rightarrow> Inl KeyError
                  | Some nm \<Rightarrow>
                      Inr (currif_set w (join_str '' '' ws)
                             (append_line (optionDict l nm w (join_str '' '' ws)) st)))
             | MAPPING \<Rightarrow> Inr (append_line (lineDict l) st)
             | NONE \<Rightarrow> Inr (append_line (lineDict l) st)
             | Undefined \<Rightarrow> Inl (MisplacedOption l i)))"

fun read_loop :: "pstate \<Rightarrow> nat \<Rightarrow> string list \<Rightarrow> error + pstate" where
  "read_loop st i [] = Inr st"
| "read_loop st i (l # ls) =
     (case process_line st (Suc i) l of
        Inl e \<Rightarrow> Inl e
      | Inr st' \<Rightarrow> read_loop st' (Suc i) ls)"

definition read_interfaces_lines ::
  "string list \<Rightarrow> error + line_rec list \<times> (string, dict) fmap" where
  "read_interfaces_lines line_strings =
     (case read_loop init_state 0 line_strings of
        Inl e \<Rightarrow> Inl e
      | Inr st \<Rightarrow> Inr (lines st, ifaces st))"

section \<open>The editor: setInterfaceOption\<close>

text \<open>
  The three lists the editor filters out of \<^verbatim>\<open>lines\<close>: \<^verbatim>\<open>iface_lines\<close>, \<^verbatim>\<open>iface_options\<close>
  and \<^verbatim>\<open>target_options\<close>. The value is the string \<^verbatim>\<open>str(raw_value)\<close>.
\<close>

definition iface_lines_of :: "line_rec list \<Rightarrow> string \<Rightarrow> line_rec list" where
  "iface_lines_of ls iface = filter (\<lambda>item. has_iface item iface) ls"

definition iface_options_of :: "line_rec list \<Rightarrow> string \<Rightarrow> line_rec list" where
  "iface_options_of ls iface = filter (\<lambda>i. line_type i = ''option'') (iface_lines_of ls iface)"

definition target_options_of :: "line_rec list \<Rightarrow> string \<Rightarrow> string \<Rightarrow> line_rec list" where
  "target_options_of ls iface option =
     filter (\<lambda>i. has_option i option) (iface_options_of ls iface)"

text \<open>
  The branch that adds a new option line after the last line of the interface.
  \<^verbatim>\<open>last_line.split()[0]\<close> raises IndexError on a line without words; the position of
  the new dictionary is \<^verbatim>\<open>len(lines) - lines[::-1].index(last_line_dict)\<close>.
\<close>

definition add_option ::
  "line_rec list \<Rightarrow> string \<Rightarrow> string \<Rightarrow> string \<Rightarrow> error + bool \<times> line_rec list" where
  "add_option ls iface option v =
     (let last_line_dict = last (iface_lines_of ls iface);
          last_line = line last_line_dict
      in case split_str last_line of
           [] \<Rightarrow> Inl IndexError
         | w # ws \<Rightarrow>
             (let prefix_start = find_str last_line w 0;
                 suffix_start = find_str last_line (last (w # ws)) 0 + int (length (last (w # ws)));
                 l0 = slice_to last_line prefix_start;
                 l1 = (if length (iface_options_of ls iface) < 1 then l0 @ ''    '' else l0);
                 l2 = l1 @ option @ '' '' @ v;
                 l3 = l2 @ slice_from last_line suffix_start;
                 option_dict = optionDict l3 iface option v
             in case index_of (rev ls) last_line_dict of
                  None \<Rightarrow> Inl ValueError
                | Some j \<Rightarrow> Inr (True, insert_at (length ls - j) option_dict ls)))"

text \<open>
  The branch that rewrites the last line holding the option, when its value differs.
  The position of the rewritten dictionary is
  \<^verbatim>\<open>len(lines) - lines[::-1].index(target_option) - 1\<close>.
\<close>

definition edit_option ::
  "line_rec list \<Rightarrow> string \<Rightarrow> string \<Rightarrow> string \<Rightarrow> error + bool \<times> line_rec list" where
  "edit_option ls iface option v =
     (let target_option = last (target_options_of ls iface option);
          old_line = line target_option;
          old_value = value_of target_option;
          prefix_start = find_str old_line option 0;
          start = find_str old_line old_value (prefix_start + int (length option) - 1);
          stop = start + int (length old_value);
          l = slice_to old_line start
                @ replace_str (slice old_line start stop) old_value v
                @ slice_from old_line stop
      in case index_of (rev ls) target_option of
           None \<Rightarrow> Inl ValueError
         | Some j \<Rightarrow> Inr (True, ls[length ls - j - 1 := optionDict l iface option v]))"

definition setInterfaceOption ::
  "line_rec list \<Rightarrow> string \<Rightarrow> string \<Rightarrow> string \<Rightarrow> string
     \<Rightarrow> error + bool \<times> line_rec list" where
  "setInterfaceOption ls iface option v state =
     (if length (iface_lines_of ls iface) < 1 then Inl (InterfaceNotFound iface)
      else if state = ''present'' then
        (if length (target_options_of ls iface option) < 1 then add_option ls iface option v
         else if split_str (value_of (last (target_options_of ls iface option))) \<noteq> split_str v
              then edit_option ls iface option v
         else Inr (False, ls))
      else if state = ''absent'' then
        (if length (target_options_of ls iface option) \<ge> 1
         then Inr (True, filter (\<lambda>l. l \<noteq> hd (target_options_of ls iface option)) ls)
         else Inr (False, ls))
      else Inl (UnsupportedState state))"

section \<open>Notions used in the statements\<close>

text \<open>A record is a target option when all three filters of the editor keep it.\<close>

definition is_target :: "string \<Rightarrow> string \<Rightarrow> line_rec \<Rightarrow> bool" where
  "is_target iface option r \<longleftrightarrow>
     has_iface r iface \<and> line_type r = ''option'' \<and> has_option r option"

text \<open>
  While the mode is IFACE the dictionary \<^verbatim>\<open>currif\<close> has the key \<^verbatim>\<open>name\<close>, so
  \<^verbatim>\<open>currif['name']\<close> never raises.
\<close>

definition has_name :: "pstate \<Rightarrow> bool" where
  "has_name st \<longleftrightarrow>
     (currently_processing st = IFACE \<longrightarrow> fmlookup (currif st) ''name'' \<noteq> None)"

text \<open>The eight first words the parser compares with, in the order of the source.\<close>

definition directives :: "string list" where
  "directives = [''mapping'', ''source'', ''source-dir'', ''iface'', ''auto'', ''allow-'',
     ''no-auto-down'', ''no-scripts'']"

subsection \<open>A small interfaces file\<close>

text \<open>
  The stanza \<^verbatim>\<open>iface eth0 inet static\<close> with one \<^verbatim>\<open>address\<close> line and the records
  the parser returns for it; the records of the same stanza with two identical \<^verbatim>\<open>mtu\<close>
  lines, and with a comment between the two; and the parser's state after the header alone.
\<close>

definition eth0_params :: dict where
  "eth0_params = fmupd ''method'' ''static'' (fmupd ''address_family'' ''inet''
     (fmupd ''name'' ''eth0'' fmempty))"

definition eth0_file :: "string list" where
  "eth0_file = [''iface eth0 inet static\<newline>'', ''    address 10.0.0.1\<newline>'']"

definition eth0_recs :: "line_rec list" where
  "eth0_recs =
     [Iface_line ''iface eth0 inet static\<newline>'' ''eth0''
        (fmupd ''address'' ''10.0.0.1'' eth0_params),
      Option_line ''    address 10.0.0.1\<newline>'' ''eth0'' ''address'' ''10.0.0.1'']"



definition eth0_open :: pstate where
  "eth0_open = \<lparr>lines = [Iface_line ''iface eth0 inet static\<newline>'' ''eth0'' eth0_params],
     ifaces = fmupd ''eth0'' eth0_params fmempty, currif = eth0_params,
     currif_key = ''eth0'', currif_idx = 0, currently_processing = IFACE\<rparr>"

section \<open>The parser keeps every line\<close>

lemma map_line_map_at: "map line (map_at k (with_params d) xs) = map line xs"
proof (induction k "with_params d" xs rule: map_at.induct)
  case (2 x xs)
  then show ?case by (cases x) simp_all
qed simp_all

lemma map_at_snoc_option:
  "map_at k (with_params d) (xs @ [Option_line l n opt v]) =
     map_at k (with_params d) xs @ [Option_line l n opt v]"
proof (induction xs arbitrary: k)
  case Nil
  show ?case by (cases k) simp_all
next
  case (Cons x xs)
  then show ?case by (cases k) simp_all
qed

lemma length_map_at: "length (map_at k f xs) = length xs"
  by (induction k f xs rule: map_at.induct) simp_all

lemma process_line_lines:
  assumes "process_line st i l = Inr st'"
  shows "map line (lines st') = map line (lines st) @ [l]"
  using assms
  by (auto simp: process_line_def append_line_def unknown_line_def lineDict_def optionDict_def
        currif_set_def Let_def map_line_map_at
      split: list.splits if_splits mode.splits option.splits)

lemma read_loop_lines:
  "read_loop st i ls = Inr st' \<Longrightarrow> map line (lines st') = map line (lines st) @ ls"
proof (induction ls arbitrary: st i)
  case Nil
  then show ?case by simp
next
  case (Cons l ls)
  then obtain st1 where s1: "process_line st (Suc i) l = Inr st1"
    and r: "read_loop st1 (Suc i) ls = Inr st'"
    by (auto split: sum.splits)
  from Cons.IH [OF r] process_line_lines [OF s1] show ?case by simp
qed

text \<open>
  Claim C4. Whenever the parser returns, the \<^verbatim>\<open>line\<close> fields of the records it returns
  are, in order, exactly the input lines: one record per line, its text verbatim. Joining
  them therefore gives back the input text byte for byte.
\<close>

theorem parse_round_trip:
  assumes "read_interfaces_lines line_strings = Inr (recs, ifs)"
  shows "map line recs = line_strings \<and> concat (map line recs) = concat line_strings"
proof -
  from assms obtain st where "read_loop init_state 0 line_strings = Inr st" and "recs = lines st"
    by (auto simp: read_interfaces_lines_def split: sum.splits)
  with read_loop_lines [of init_state 0 line_strings st] show ?thesis
    by (simp add: init_state_def)
qed

theorem parse_round_trip_witness:
  "read_interfaces_lines eth0_file
     = Inr (eth0_recs, fmupd ''eth0'' (fmupd ''address'' ''10.0.0.1'' eth0_params) fmempty)
   \<and> map line eth0_recs = eth0_file
   \<and> concat (map line eth0_recs) = concat eth0_file"
proof -
  have h: "read_interfaces_lines eth0_file
     = Inr (eth0_recs, fmupd ''eth0'' (fmupd ''address'' ''10.0.0.1'' eth0_params) fmempty)"
    by code_simp
  from parse_round_trip [OF h] h show ?thesis by simp
qed

section \<open>Which first words change the mode\<close>

lemma process_line_has_name:
  assumes "process_line st i l = Inr st'" and "has_name st"
  shows "has_name st'"
  using assms
  by (auto simp: process_line_def append_line_def unknown_line_def has_name_def
        currif_set_def Let_def
      split: list.splits if_splits mode.splits option.splits)

lemma read_loop_has_name:
  "read_loop st i ls = Inr st' \<Longrightarrow> has_name st \<Longrightarrow> has_name st'"
proof (induction ls arbitrary: st i)
  case Nil
  then show ?case by simp
next
  case (Cons l ls)
  then obtain st1 where s1: "process_line st (Suc i) l = Inr st1"
    and r: "read_loop st1 (Suc i) ls = Inr st'"
    by (auto split: sum.splits)
  from process_line_has_name [OF s1 Cons.prems(2)] Cons.IH [OF r] show ?case by simp
qed

lemma allow_prefix_not_directive:
  assumes "take 6 w = ''allow-''" and "w \<noteq> ''allow-''"
  shows "w \<notin> set directives" and "take 1 w \<noteq> ''#''"
  using assms by (cases w; auto simp: directives_def)+

lemma process_line_option:
  assumes "split_str l = w # ws" and "w \<notin> set directives" and "take 1 w \<noteq> ''#''"
    and "currently_processing st = IFACE" and "fmlookup (currif st) ''name'' = Some nm"
  shows "process_line st i l =
           Inr (currif_set w (join_str '' '' ws)
                  (append_line (optionDict l nm w (join_str '' '' ws)) st))"
  using assms by (simp add: process_line_def directives_def)

lemma mode_append_line: "currently_processing (append_line r st) = currently_processing st"
  by (simp add: append_line_def)

lemma mode_currif_set: "currently_processing (currif_set k v st) = currently_processing st"
  by (simp add: currif_set_def Let_def)

lemma lines_currif_set_option:
  "lines (currif_set k v (append_line (optionDict l nm w x) st)) =
     map_at (currif_idx st) (with_params (fmupd k v (currif st))) (lines st)
       @ [Option_line l nm w x]"
  by (simp add: currif_set_def Let_def append_line_def optionDict_def map_at_snoc_option)

lemma process_line_mode_change:
  assumes "process_line st i l = Inr st'"
    and "currently_processing st' \<noteq> currently_processing st"
  shows "\<exists>w ws. split_str l = w # ws \<and> w \<in> set directives"
  using assms
  by (auto simp: process_line_def append_line_def unknown_line_def directives_def
        currif_set_def Let_def
      split: list.splits if_splits mode.splits option.splits)

text \<open>
  Claim C10. In a state the parser reaches with mode IFACE, a line whose first word begins
  with \<^verbatim>\<open>allow-\<close> without being that literal (\<^verbatim>\<open>allow-hotplug eth0\<close>) is appended as an
  option record of the open stanza, with the first word as option name and the other words
  joined by single spaces as value, and the mode stays IFACE. And whenever a line changes
  the mode, its first word is one of the eight literals.
\<close>

theorem allow_prefix_is_option:
  assumes reach: "read_loop init_state 0 ls = Inr st"
    and mode: "currently_processing st = IFACE"
    and words: "split_str l = w # ws"
    and pre: "take 6 w = ''allow-''" and neq: "w \<noteq> ''allow-''"
  shows "(\<exists>nm st'. fmlookup (currif st) ''name'' = Some nm
           \<and> process_line st i l = Inr st'
           \<and> currently_processing st' = IFACE
           \<and> length (lines st') = Suc (length (lines st))
           \<and> last (lines st') = Option_line l nm w (join_str '' '' ws))
         \<and> (process_line s j l' = Inr s' \<and> currently_processing s' \<noteq> currently_processing s
              \<longrightarrow> (\<exists>w' ws'. split_str l' = w' # ws' \<and> w' \<in> set directives))"
proof -
  have "has_name init_state" by (simp add: has_name_def init_state_def)
  from read_loop_has_name [OF reach this] mode
  obtain nm where nm: "fmlookup (currif st) ''name'' = Some nm"
    by (auto simp: has_name_def)
  note nd = allow_prefix_not_directive [OF pre neq]
  from process_line_option [OF words nd mode nm, of i] mode nm
  have "\<exists>nm st'. fmlookup (currif st) ''name'' = Some nm
           \<and> process_line st i l = Inr st'
           \<and> currently_processing st' = IFACE
           \<and> length (lines st') = Suc (length (lines st))
           \<and> last (lines st') = Option_line l nm w (join_str '' '' ws)"
    by (simp add: mode_currif_set mode_append_line lines_currif_set_option length_map_at)
  with process_line_mode_change [of s j l' s'] show ?thesis by blast
qed

theorem allow_prefix_is_option_witness:
  "read_loop init_state 0 [''iface eth0 inet static\<newline>''] = Inr eth0_open
   \<and> currently_processing eth0_open = IFACE
   \<and> split_str ''    allow-hotplug eth0\<newline>'' = [''allow-hotplug'', ''eth0'']
   \<and> (\<exists>st'. process_line eth0_open 2 ''    allow-hotplug eth0\<newline>'' = Inr st'
         \<and> currently_processing st' = IFACE
         \<and> length (lines st') = 2
         \<and> last (lines st')
             = Option_line ''    allow-hotplug eth0\<newline>'' ''eth0'' ''allow-hotplug'' ''eth0'')
   \<and> process_line eth0_open 2 ''auto eth0\<newline>''
       = Inr (eth0_open\<lparr>lines := lines eth0_open @ [Unknown_line ''auto eth0\<newline>''],
                currently_processing := NONE\<rparr>)
   \<and> (\<exists>w' ws'. split_str ''auto eth0\<newline>'' = w' # ws' \<and> w' \<in> set directives)"
proof -
  have h1: "read_loop init_state 0 [''iface eth0 inet static\<newline>''] = Inr eth0_open"
    by code_simp
  have h2: "currently_processing eth0_open = IFACE"
    by (simp add: eth0_open_def)
  have h3: "split_str ''    allow-hotplug eth0\<newline>'' = [''allow-hotplug'', ''eth0'']"
    by code_simp
  have h4: "take 6 ''allow-hotplug'' = ''allow-''" and h5: "''allow-hotplug'' \<noteq> ''allow-''"
    by simp_all
  have h6: "process_line eth0_open 2 ''auto eth0\<newline>''
       = Inr (eth0_open\<lparr>lines := lines eth0_open @ [Unknown_line ''auto eth0\<newline>''],
                currently_processing := NONE\<rparr>)"
    by code_simp
  have h7: "currently_processing (eth0_open\<lparr>lines := lines eth0_open
                @ [Unknown_line ''auto eth0\<newline>''], currently_processing := NONE\<rparr>)
              \<noteq> currently_processing eth0_open"
    by (simp add: eth0_open_def)
  have nm: "fmlookup (currif eth0_open) ''name'' = Some ''eth0''"
    by (simp add: eth0_open_def eth0_params_def)
  have len: "length (lines eth0_open) = 1"
    by (simp add: eth0_open_def)
  from allow_prefix_is_option [OF h1 h2 h3 h4 h5, of 2 eth0_open 2 "''auto eth0\<newline>''"
      "eth0_open\<lparr>lines := lines eth0_open @ [Unknown_line ''auto eth0\<newline>''],
         currently_processing := NONE\<rparr>"] h6 h7 nm len
  have "(\<exists>st'. process_line eth0_open 2 ''    allow-hotplug eth0\<newline>'' = Inr st'
         \<and> currently_processing st' = IFACE
         \<and> length (lines st') = 2
         \<and> last (lines st')
             = Option_line ''    allow-hotplug eth0\<newline>'' ''eth0'' ''allow-hotplug'' ''eth0'')
       \<and> (\<exists>w' ws'. split_str ''auto eth0\<newline>'' = w' # ws' \<and> w' \<in> set directives)"
    by auto
  with h1 h2 h3 h6 show ?thesis by blast
qed

section \<open>An iface line with the wrong number of words\<close>

text \<open>
  Claim C2. \<open>MalformedIfaceLine c n\<close> stands for the message
  \<^verbatim>\<open>"Incorrect number of parameters (%d) in line %d, must be exectly 3" % (len(words), i)\<close>,
  with \<open>c\<close> the count and \<open>n\<close> the line number. For the line
  \<^verbatim>\<open>iface eth0 inet static dhcp\<close> the count in the message is 5, the number of words, where
  the line has 4 arguments after \<^verbatim>\<open>iface\<close>. A line with fewer than three arguments
  never reaches the message: unpacking \<^verbatim>\<open>words[1:4]\<close> raises ValueError first.
\<close>

theorem iface_line_reports_word_count:
  "read_interfaces_lines [''iface eth0 inet static dhcp''] = Inl (MalformedIfaceLine 5 1)
   \<and> read_interfaces_lines [''iface eth0''] = Inl ValueError"
  by code_simp

section \<open>The stanza an option line is given\<close>

text \<open>
  Claim C9. An option record takes its interface from \<^verbatim>\<open>currif['name']\<close>, and the options
  of a stanza are stored in the same dictionary as its name. After an option line
  \<^verbatim>\<open>name foo\<close> in the stanza of eth0, the next option record has interface \<open>foo\<close>, which is
  the name of no \<^verbatim>\<open>iface\<close> line of the file.
\<close>

theorem option_named_name_renames_stanza:
  "read_interfaces_lines
     [''iface eth0 inet static\<newline>'', ''    name foo\<newline>'', ''    mtu 1500\<newline>'']
   = Inr ([Iface_line ''iface eth0 inet static\<newline>'' ''eth0''
             (fmupd ''mtu'' ''1500'' (fmupd ''name'' ''foo'' eth0_params)),
           Option_line ''    name foo\<newline>'' ''eth0'' ''name'' ''foo'',
           Option_line ''    mtu 1500\<newline>'' ''foo'' ''mtu'' ''1500''],
          fmupd ''eth0'' (fmupd ''mtu'' ''1500'' (fmupd ''name'' ''foo'' eth0_params)) fmempty)"
  by code_simp

section \<open>The editor: where the edited record is\<close>

lemma target_options_filter:
  "target_options_of ls iface option = filter (is_target iface option) ls"
  by (auto simp: target_options_of_def iface_options_of_def iface_lines_of_def is_target_def
      intro: filter_cong)

lemma is_target_has_iface: "is_target iface option r \<Longrightarrow> has_iface r iface"
  by (simp add: is_target_def)

lemma is_target_optionDict: "is_target iface option (optionDict l iface option v)"
  by (simp add: is_target_def optionDict_def)

lemma last_filter_split:
  assumes "filter P ls \<noteq> []"
  shows "\<exists>xs ys. ls = xs @ last (filter P ls) # ys \<and> P (last (filter P ls))
           \<and> (\<forall>y\<in>set ys. \<not> P y)"
proof -
  from assms have "\<exists>x\<in>set ls. P x"
    by (auto simp: filter_empty_conv)
  from split_list_last_prop [OF this]
  obtain xs x ys where ls: "ls = xs @ x # ys" and px: "P x" and nys: "\<forall>y\<in>set ys. \<not> P y"
    by blast
  from nys have "filter P ys = []" by (simp add: filter_empty_conv)
  with ls px have x: "last (filter P ls) = x" by simp
  from ls px nys show ?thesis unfolding x by blast
qed

lemma index_of_first:
  "x \<notin> set xs \<Longrightarrow> index_of (xs @ x # ys) x = Some (length xs)"
  by (induction xs) auto

lemma index_of_rev_last:
  assumes "t \<notin> set ys"
  shows "index_of (rev (xs @ t # ys)) t = Some (length ys)"
  using assms index_of_first [of t "rev ys" "rev xs"] by simp

lemma add_option_at:
  assumes t: "last (iface_lines_of (xs @ t # ys) iface) = t" and nys: "t \<notin> set ys"
  shows "add_option (xs @ t # ys) iface option v = Inl IndexError \<or>
         (\<exists>l. add_option (xs @ t # ys) iface option v
                 = Inr (True, xs @ t # optionDict l iface option v # ys))"
proof (cases "split_str (line t)")
  case Nil
  with t show ?thesis by (simp add: add_option_def Let_def)
next
  case (Cons w ws)
  have idx: "index_of (rev (xs @ t # ys)) t = Some (length ys)"
    using nys by (rule index_of_rev_last)
  have ins: "insert_at (length (xs @ t # ys) - length ys) r (xs @ t # ys) = xs @ t # r # ys" for r
    by (simp add: insert_at_def)
  show ?thesis
    unfolding add_option_def Let_def t Cons list.case idx option.case ins by blast
qed

lemma edit_option_at:
  assumes t: "last (target_options_of (xs @ t # ys) iface option) = t" and nys: "t \<notin> set ys"
  shows "\<exists>l. edit_option (xs @ t # ys) iface option v
                 = Inr (True, xs @ optionDict l iface option v # ys)"
proof -
  have idx: "index_of (rev (xs @ t # ys)) t = Some (length ys)"
    using nys by (rule index_of_rev_last)
  have upd: "(xs @ t # ys)[length (xs @ t # ys) - length ys - 1 := r] = xs @ r # ys" for r
    by simp
  show ?thesis
    unfolding edit_option_def Let_def t idx option.case upd by blast
qed

lemma add_option_result:
  assumes "iface_lines_of ls iface \<noteq> []"
  shows "add_option ls iface option v = Inl IndexError \<or>
         (\<exists>xs t ys l. ls = xs @ t # ys \<and> has_iface t iface
            \<and> (\<forall>y\<in>set ys. \<not> has_iface y iface)
            \<and> add_option ls iface option v
                 = Inr (True, xs @ t # optionDict l iface option v # ys))"
proof -
  define t where "t = last (iface_lines_of ls iface)"
  from assms last_filter_split [of "\<lambda>r. has_iface r iface" ls]
  obtain xs ys where ls: "ls = xs @ t # ys" and pt: "has_iface t iface"
    and nys: "\<forall>y\<in>set ys. \<not> has_iface y iface"
    unfolding iface_lines_of_def t_def by blast
  from pt nys have n: "t \<notin> set ys" by blast
  have "last (iface_lines_of ls iface) = t" by (simp add: t_def)
  then have l: "last (iface_lines_of (xs @ t # ys) iface) = t" unfolding ls .
  from add_option_at [OF l n, of option v] pt nys show ?thesis
    unfolding ls by blast
qed

lemma edit_option_result:
  assumes "target_options_of ls iface option \<noteq> []"
  shows "\<exists>xs t ys l. ls = xs @ t # ys \<and> is_target iface option t
            \<and> (\<forall>y\<in>set ys. \<not> is_target iface option y)
            \<and> edit_option ls iface option v
                 = Inr (True, xs @ optionDict l iface option v # ys)"
proof -
  define t where "t = last (target_options_of ls iface option)"
  from assms last_filter_split [of "is_target iface option" ls]
  obtain xs ys where ls: "ls = xs @ t # ys" and pt: "is_target iface option t"
    and nys: "\<forall>y\<in>set ys. \<not> is_target iface option y"
    unfolding target_options_filter t_def by blast
  from pt nys have n: "t \<notin> set ys" by blast
  have "last (target_options_of ls iface option) = t" by (simp add: t_def)
  then have l: "last (target_options_of (xs @ t # ys) iface option) = t" unfolding ls .
  from edit_option_at [OF l n, of v] pt nys show ?thesis
    unfolding ls by blast
qed

lemma iface_lines_filter:
  "iface_lines_of ls iface = filter (\<lambda>r. has_iface r iface) ls"
  by (simp add: iface_lines_of_def)

lemma targets_have_iface_lines:
  assumes "target_options_of ls iface option \<noteq> []"
  shows "iface_lines_of ls iface \<noteq> []"
proof -
  from assms obtain r where "r \<in> set ls" and "is_target iface option r"
    by (auto simp: target_options_filter filter_empty_conv)
  then show ?thesis
    by (auto simp: iface_lines_filter filter_empty_conv dest: is_target_has_iface)
qed

lemma value_of_optionDict: "value_of (optionDict l iface option v) = v"
  by (simp add: optionDict_def)

lemma has_iface_optionDict: "has_iface (optionDict l iface option v) iface"
  by (simp add: optionDict_def)

lemma present_settled:
  assumes "last (target_options_of ls iface option) = optionDict l iface option v"
    and "target_options_of ls iface option \<noteq> []"
  shows "setInterfaceOption ls iface option v ''present'' = Inr (False, ls)"
  using assms targets_have_iface_lines [OF assms(2)]
  by (simp add: setInterfaceOption_def value_of_optionDict)

section \<open>Setting an option twice\<close>

text \<open>
  Claim C6, as amended. When a call with state \<^verbatim>\<open>present\<close> returns, a second call with the
  same interface, option and value on the returned sequence reports no change and returns
  that sequence again. The first call reports a change exactly when the interface had no
  line for the option or the whitespace-separated words of the value on its last such
  line differ from those of the new value; it reports no change otherwise.
\<close>

theorem present_twice:
  assumes "setInterfaceOption ls iface option v ''present'' = Inr (c1, ls1)"
  shows "setInterfaceOption ls1 iface option v ''present'' = Inr (False, ls1)
         \<and> (c1 \<longleftrightarrow> target_options_of ls iface option = []
                \<or> split_str (value_of (last (target_options_of ls iface option))) \<noteq> split_str v)"
proof -
  from assms have il: "iface_lines_of ls iface \<noteq> []"
    by (auto simp: setInterfaceOption_def split: if_splits)
  consider (add) "target_options_of ls iface option = []"
    | (edit) "target_options_of ls iface option \<noteq> []"
        "split_str (value_of (last (target_options_of ls iface option))) \<noteq> split_str v"
    | (same) "target_options_of ls iface option \<noteq> []"
        "split_str (value_of (last (target_options_of ls iface option))) = split_str v"
    by blast
  then show ?thesis
  proof cases
    case add
    with assms il have a: "add_option ls iface option v = Inr (c1, ls1)"
      by (simp add: setInterfaceOption_def)
    with add_option_result [OF il, of option v]
    obtain xs t ys l where ls: "ls = xs @ t # ys"
      and r: "c1 = True" "ls1 = xs @ t # optionDict l iface option v # ys"
      by auto
    from add ls have "filter (is_target iface option) xs = []"
      "\<not> is_target iface option t" "filter (is_target iface option) ys = []"
      by (auto simp: target_options_filter split: if_splits)
    with r have t1: "target_options_of ls1 iface option = [optionDict l iface option v]"
      by (simp add: target_options_filter is_target_optionDict)
    from present_settled [of ls1 iface option l v] t1 r add show ?thesis by simp
  next
    case edit
    with assms il have a: "edit_option ls iface option v = Inr (c1, ls1)"
      by (simp add: setInterfaceOption_def)
    with edit_option_result [OF edit(1), of v]
    obtain xs t ys l where ls: "ls = xs @ t # ys"
      and nys: "\<forall>y\<in>set ys. \<not> is_target iface option y"
      and r: "c1 = True" "ls1 = xs @ optionDict l iface option v # ys"
      by auto
    from nys have "filter (is_target iface option) ys = []"
      by (simp add: filter_empty_conv)
    with r have t1: "target_options_of ls1 iface option
        = filter (is_target iface option) xs @ [optionDict l iface option v]"
      by (simp add: target_options_filter is_target_optionDict)
    from present_settled [of ls1 iface option l v] t1 r edit show ?thesis by simp
  next
    case same
    with assms il have "c1 = False" "ls1 = ls"
      by (simp_all add: setInterfaceOption_def)
    with same assms show ?thesis by simp
  qed
qed

theorem present_twice_witness:
  "setInterfaceOption eth0_recs ''eth0'' ''mtu'' ''1500'' ''present''
     = Inr (True, eth0_recs @ [Option_line ''    mtu 1500\<newline>'' ''eth0'' ''mtu'' ''1500''])
   \<and> setInterfaceOption
         (eth0_recs @ [Option_line ''    mtu 1500\<newline>'' ''eth0'' ''mtu'' ''1500''])
         ''eth0'' ''mtu'' ''1500'' ''present''
     = Inr (False, eth0_recs @ [Option_line ''    mtu 1500\<newline>'' ''eth0'' ''mtu'' ''1500''])
   \<and> target_options_of eth0_recs ''eth0'' ''mtu'' = []"
proof -
  have h: "setInterfaceOption eth0_recs ''eth0'' ''mtu'' ''1500'' ''present''
     = Inr (True, eth0_recs @ [Option_line ''    mtu 1500\<newline>'' ''eth0'' ''mtu'' ''1500''])"
    by code_simp
  have t: "target_options_of eth0_recs ''eth0'' ''mtu'' = []"
    by code_simp
  from present_twice [OF h] h t show ?thesis by simp
qed

text \<open>
  The claim as written also promises a change on the first call. On the small file, asking
  for the address it already has reports no change on the first call.
\<close>

theorem present_first_call_counterexample:
  "read_interfaces_lines eth0_file
     = Inr (eth0_recs, fmupd ''eth0'' (fmupd ''address'' ''10.0.0.1'' eth0_params) fmempty)
   \<and> setInterfaceOption eth0_recs ''eth0'' ''address'' ''10.0.0.1'' ''present''
     = Inr (False, eth0_recs)"
  by code_simp

section \<open>Removing an option\<close>

text \<open>
  What state \<^verbatim>\<open>absent\<close> does when the interface has a target option record: it keeps the
  records that differ from the first target option record \<open>t\<close>, by
  \<^verbatim>\<open>filter(lambda l: l != target_options[0], lines)\<close>. Only when no later record equals \<open>t\<close>
  is that the removal of one record.
\<close>

lemma absent_filters_by_value:
  assumes "target_options_of ls iface option = t # ts"
  shows "setInterfaceOption ls iface option v ''absent''
           = Inr (True, filter (\<lambda>l. l \<noteq> t) ls)
         \<and> (\<exists>pre post. ls = pre @ t # post \<and> t \<notin> set pre
               \<and> (t \<notin> set post \<longrightarrow>
                    filter (\<lambda>l. l \<noteq> t) ls = pre @ post
                    \<and> target_options_of (pre @ post) iface option = ts))"
proof -
  from assms have ne: "target_options_of ls iface option \<noteq> []" by simp
  from targets_have_iface_lines [OF ne] assms
  have res: "setInterfaceOption ls iface option v ''absent''
           = Inr (True, filter (\<lambda>l. l \<noteq> t) ls)"
    by (simp add: setInterfaceOption_def)
  from assms have "t \<in> set (filter (is_target iface option) ls)"
    by (simp add: target_options_filter)
  then have tin: "t \<in> set ls" and pt: "is_target iface option t" by simp_all
  from split_list_first [OF tin]
  obtain pre post where ls: "ls = pre @ t # post" and npre: "t \<notin> set pre" by blast
  have tpre: "filter (is_target iface option) pre = []"
  proof (rule ccontr)
    assume "filter (is_target iface option) pre \<noteq> []"
    then obtain a as where f: "filter (is_target iface option) pre = a # as"
      by (cases "filter (is_target iface option) pre") auto
    with assms ls have "a = t" by (simp add: target_options_filter)
    moreover from f have "a \<in> set (filter (is_target iface option) pre)" by simp
    ultimately show False using npre by simp
  qed
  with assms ls pt have tpost: "filter (is_target iface option) post = ts"
    by (simp add: target_options_filter)
  from npre have fpre: "filter (\<lambda>l. l \<noteq> t) pre = pre"
    by (simp add: filter_id_conv) blast
  have "t \<notin> set post \<longrightarrow>
          filter (\<lambda>l. l \<noteq> t) ls = pre @ post
          \<and> target_options_of (pre @ post) iface option = ts"
  proof
    assume "t \<notin> set post"
    then have "filter (\<lambda>l. l \<noteq> t) post = post"
      by (simp add: filter_id_conv) blast
    with fpre tpre tpost show "filter (\<lambda>l. l \<noteq> t) ls = pre @ post
          \<and> target_options_of (pre @ post) iface option = ts"
      unfolding ls by (simp add: target_options_filter)
  qed
  with res ls npre show ?thesis by blast
qed


section \<open>What an edit leaves alone\<close>

text \<open>
  The shapes of a returned sequence: the input itself, the input with one new option record
  between two neighbours, the input with one target option record replaced by a new option
  record, or the input without the records equal to one target option record.
\<close>

lemma edit_shapes:
  assumes "setInterfaceOption ls iface option v state = Inr (changed, ls')"
  shows "(\<not> changed \<and> ls' = ls)
       \<or> (changed \<and> state = ''present'' \<and>
            (\<exists>xs t ys l. ls = xs @ t # ys
               \<and> ls' = xs @ t # optionDict l iface option v # ys))
       \<or> (changed \<and> state = ''present'' \<and>
            (\<exists>xs t ys l. ls = xs @ t # ys \<and> is_target iface option t
               \<and> ls' = xs @ optionDict l iface option v # ys))
       \<or> (changed \<and> state = ''absent'' \<and>
            (\<exists>t. t \<in> set ls \<and> is_target iface option t
               \<and> ls' = filter (\<lambda>l. l \<noteq> t) ls))"
proof -
  from assms have il: "iface_lines_of ls iface \<noteq> []"
    by (auto simp: setInterfaceOption_def split: if_splits)
  from assms have st: "state = ''present'' \<or> state = ''absent''"
    by (auto simp: setInterfaceOption_def split: if_splits)
  show ?thesis
  proof (cases "target_options_of ls iface option = []")
    case True
    show ?thesis
    proof (cases "state = ''present''")
      case True
      with assms il \<open>target_options_of ls iface option = []\<close>
      have "add_option ls iface option v = Inr (changed, ls')"
        by (simp add: setInterfaceOption_def)
      with add_option_result [OF il, of option v]
      obtain xs t ys l where "ls = xs @ t # ys" "changed"
        "ls' = xs @ t # optionDict l iface option v # ys"
        by auto
      with True show ?thesis by blast
    next
      case False
      with st assms il \<open>target_options_of ls iface option = []\<close> show ?thesis
        by (auto simp: setInterfaceOption_def)
    qed
  next
    case False
    then obtain t ts where tt: "target_options_of ls iface option = t # ts"
      by (cases "target_options_of ls iface option") auto
    show ?thesis
    proof (cases "state = ''present''")
      case True
      show ?thesis
      proof (cases "split_str (value_of (last (target_options_of ls iface option))) = split_str v")
        case True
        with assms il False \<open>state = ''present''\<close> show ?thesis
          by (simp add: setInterfaceOption_def)
      next
        case neq: False
        with assms il False True
        have "edit_option ls iface option v = Inr (changed, ls')"
          by (simp add: setInterfaceOption_def)
        with edit_option_result [OF False, of v]
        obtain xs t ys l where "ls = xs @ t # ys" "is_target iface option t" "changed"
          "ls' = xs @ optionDict l iface option v # ys"
          by auto
        with True show ?thesis by blast
      qed
    next
      case np: False
      with st have ab: "state = ''absent''" by simp
      from tt have "t \<in> set (filter (is_target iface option) ls)"
        by (simp add: target_options_filter)
      then have "t \<in> set ls" "is_target iface option t" by simp_all
      moreover from assms il tt ab
      have "changed" "ls' = filter (\<lambda>l. l \<noteq> t) ls"
        by (simp_all add: setInterfaceOption_def)
      ultimately show ?thesis using ab by blast
    qed
  qed
qed


section \<open>The two failures of the editor\<close>

text \<open>
  Claim C8, as amended. When no record of the input names the interface, the call fails
  with InterfaceNotFound, whatever the state. When some record names it and the state is
  neither \<^verbatim>\<open>present\<close> nor \<^verbatim>\<open>absent\<close>, the call fails with UnsupportedState. A failure
  returns no sequence.
\<close>

theorem editor_errors:
  "(iface_lines_of ls iface = [] \<longrightarrow>
      setInterfaceOption ls iface option v state = Inl (InterfaceNotFound iface))
   \<and> (iface_lines_of ls iface \<noteq> [] \<and> state \<noteq> ''present'' \<and> state \<noteq> ''absent'' \<longrightarrow>
      setInterfaceOption ls iface option v state = Inl (UnsupportedState state))"
  by (simp add: setInterfaceOption_def)

theorem editor_errors_witness:
  "iface_lines_of eth0_recs ''eth1'' = []
   \<and> setInterfaceOption eth0_recs ''eth1'' ''mtu'' ''1500'' ''present''
       = Inl (InterfaceNotFound ''eth1'')
   \<and> iface_lines_of eth0_recs ''eth0'' \<noteq> []
   \<and> ''bogus'' \<noteq> ''present'' \<and> ''bogus'' \<noteq> ''absent''
   \<and> setInterfaceOption eth0_recs ''eth0'' ''mtu'' ''1500'' ''bogus''
       = Inl (UnsupportedState ''bogus'')"
proof -
  have h1: "iface_lines_of eth0_recs ''eth1'' = []" by code_simp
  have h2: "iface_lines_of eth0_recs ''eth0'' \<noteq> []" by code_simp
  have h3: "''bogus'' \<noteq> ''present''" "''bogus'' \<noteq> ''absent''" by simp_all
  from editor_errors [of eth0_recs "''eth1''" "''mtu''" "''1500''" "''present''"]
    editor_errors [of eth0_recs "''eth0''" "''mtu''" "''1500''" "''bogus''"] h1 h2 h3
  show ?thesis by simp
qed

text \<open>
  The claim as written has UnsupportedState for every state other than \<^verbatim>\<open>present\<close> and
  \<^verbatim>\<open>absent\<close>. The interface is looked up first: with an unknown interface and such a
  state the failure is InterfaceNotFound.
\<close>

theorem unsupported_state_counterexample:
  "''bogus'' \<noteq> ''present'' \<and> ''bogus'' \<noteq> ''absent''
   \<and> setInterfaceOption eth0_recs ''eth1'' ''mtu'' ''1500'' ''bogus''
       = Inl (InterfaceNotFound ''eth1'')
   \<and> setInterfaceOption eth0_recs ''eth1'' ''mtu'' ''1500'' ''bogus''
       \<noteq> Inl (UnsupportedState ''bogus'')"
  by code_simp

section \<open>The text of a new and of a rewritten line\<close>

text \<open>
  Claim C5. The new line ends with the text of the anchor line from
  \<^verbatim>\<open>last_line.find(last_line.split()[-1]) + len(last_line.split()[-1])\<close> on, and \<^verbatim>\<open>find\<close>
  gives the first place where the text of the last word occurs. After the anchor
  \<^verbatim>\<open>up ip link set eth0 up\<close> that place is the option name, so the new line for
  \<^verbatim>\<open>mtu 1500\<close> carries \<^verbatim>\<open> ip link set eth0 up\<close> behind the value, where the text after the
  anchor's last word is the line terminator alone.
\<close>

theorem new_line_suffix_from_first_occurrence:
  "read_interfaces_lines
     [''iface eth0 inet static\<newline>'', ''    up ip link set eth0 up\<newline>'']
   = Inr ([Iface_line ''iface eth0 inet static\<newline>'' ''eth0''
             (fmupd ''up'' ''ip link set eth0 up'' eth0_params),
           Option_line ''    up ip link set eth0 up\<newline>'' ''eth0'' ''up''
             ''ip link set eth0 up''],
          fmupd ''eth0'' (fmupd ''up'' ''ip link set eth0 up'' eth0_params) fmempty)
   \<and> setInterfaceOption
       [Iface_line ''iface eth0 inet static\<newline>'' ''eth0''
          (fmupd ''up'' ''ip link set eth0 up'' eth0_params),
        Option_line ''    up ip link set eth0 up\<newline>'' ''eth0'' ''up''
          ''ip link set eth0 up'']
       ''eth0'' ''mtu'' ''1500'' ''present''
   = Inr (True,
       [Iface_line ''iface eth0 inet static\<newline>'' ''eth0''
          (fmupd ''up'' ''ip link set eth0 up'' eth0_params),
        Option_line ''    up ip link set eth0 up\<newline>'' ''eth0'' ''up''
          ''ip link set eth0 up'',
        Option_line ''    mtu 1500 ip link set eth0 up\<newline>'' ''eth0'' ''mtu'' ''1500''])"
  by code_simp

text \<open>
  Claim C3. The old value is searched from \<^verbatim>\<open>prefix_start + len(option) - 1\<close>, the last
  byte of the option name. On the line \<^verbatim>\<open>up p\<close> the value \<open>p\<close> is found in the name, and
  setting the option to \<open>q\<close> rewrites the name and leaves the value. And the value searched
  for is the one joined with single spaces: on a line with two spaces inside the value it
  is not found, \<^verbatim>\<open>find\<close> gives \<open>-1\<close>, and the slices at \<open>-1\<close> build a line without the
  new value.
\<close>

theorem value_search_starts_inside_option_name:
  "read_interfaces_lines [''iface eth0 inet static\<newline>'', ''    up p\<newline>'']
   = Inr ([Iface_line ''iface eth0 inet static\<newline>'' ''eth0'' (fmupd ''up'' ''p'' eth0_params),
           Option_line ''    up p\<newline>'' ''eth0'' ''up'' ''p''],
          fmupd ''eth0'' (fmupd ''up'' ''p'' eth0_params) fmempty)
   \<and> setInterfaceOption
       [Iface_line ''iface eth0 inet static\<newline>'' ''eth0'' (fmupd ''up'' ''p'' eth0_params),
        Option_line ''    up p\<newline>'' ''eth0'' ''up'' ''p'']
       ''eth0'' ''up'' ''q'' ''present''
   = Inr (True,
       [Iface_line ''iface eth0 inet static\<newline>'' ''eth0'' (fmupd ''up'' ''p'' eth0_params),
        Option_line ''    uq p\<newline>'' ''eth0'' ''up'' ''q''])
   \<and> setInterfaceOption
       [Iface_line ''iface eth0 inet static\<newline>'' ''eth0''
          (fmupd ''dns-nameservers'' ''8.8.8.8 8.8.4.4'' eth0_params),
        Option_line ''    dns-nameservers 8.8.8.8  8.8.4.4\<newline>'' ''eth0''
          ''dns-nameservers'' ''8.8.8.8 8.8.4.4'']
       ''eth0'' ''dns-nameservers'' ''1.1.1.1'' ''present''
   = Inr (True,
       [Iface_line ''iface eth0 inet static\<newline>'' ''eth0''
          (fmupd ''dns-nameservers'' ''8.8.8.8 8.8.4.4'' eth0_params),
        Option_line ''    dns-nameservers 8.8.8.8  8.8.4.4rvers 8.8.8.8  8.8.4.4\<newline>''
          ''eth0'' ''dns-nameservers'' ''1.1.1.1''])"
  by code_simp

end
